theory Spec2Isabelle
  imports Main
begin

section \<open>The server lifecycle manager and the process entry point\<close>

text \<open>
  A shallow embedding of \<^verbatim>\<open>backend/src/websocket/server_lifecycle_manager.cpp\<close>
  and of \<^verbatim>\<open>backend/src/main.cpp\<close>. The lifecycle manager coordinates four
  components that it reaches through smart pointers held by the server: the connection
  acceptor, the session manager, the message broadcaster and the statistics collector.
  The classes of these components are not part of the embedded files, so what each of
  their member functions does when it is called is a parameter of the model.
\<close>

subsection \<open>Components, calls and what a call can do\<close>

datatype component =
  ConnectionAcceptor | SessionManager | MessageBroadcaster | StatisticsCollector

datatype operation =
  Initialize | Start | Stop | CloseAllSessions
  | SetAcceptCallback | SetErrorCallback | SetSessionCallback | SetBroadcastCallback

text \<open>
  A C++ exception is either of a class derived from \<^verbatim>\<open>std::exception\<close>, which the
  handlers \<^verbatim>\<open>catch (const std::exception& e)\<close> of \<^verbatim>\<open>initialize\<close> and
  \<^verbatim>\<open>start\<close> catch, or of any other type, which only \<^verbatim>\<open>catch (...)\<close> catches.
\<close>

datatype thrown = StdException | OtherException

text \<open>
  A call of a member function returns or throws. The returned \<open>bool\<close> is the result
  of \<^verbatim>\<open>initialize()\<close> and \<^verbatim>\<open>start()\<close>; the other member functions return
  \<^verbatim>\<open>void\<close> and the \<open>bool\<close> of their outcome is never read.
\<close>

datatype outcome = Returns bool | Throws thrown

text \<open>
  The environment of the lifecycle manager: which of the smart pointers hold an object
  (\<open>present\<close>; the code tests this with \<^verbatim>\<open>if (connection_acceptor_)\<close>), and how each
  member function of each component behaves when called.
\<close>

record env =
  present :: "component \<Rightarrow> bool"
  behaviour :: "component \<Rightarrow> operation \<Rightarrow> outcome"

subsection \<open>Log lines, events and the shared flags\<close>

text \<open>
  One constructor for each line that the lifecycle manager writes, directly to
  \<^verbatim>\<open>std::cout\<close> or through \<^verbatim>\<open>utils::ErrorHandler\<close>.
\<close>

datatype message =
  InitializationFailed component
  | ServerInitialized
  | InitFailedException
  | ServerAlreadyRunning
  | StartFailed component
  | ServerStarted
  | StartFailedException
  | StoppingServer
  | ServerStopped
  | RolledBack component
  | RollbackCompleted
  | RollbackFailed

text \<open>
  Everything observable that a member function of the lifecycle manager does, in the
  order in which it does it: the calls into the components with their outcomes, the
  lines it logs, and the stores to the two atomic flags.
\<close>

datatype event =
  Called component operation outcome
  | Logged message
  | StoredRunning bool
  | StoredShutdownRequested bool

record world =
  running :: bool
  shutdown_requested :: bool
  trace :: "event list"

text \<open>
  How a function of the program ends: it returns a value, an exception leaves it, or the
  process is lost (a null smart pointer is dereferenced, or \<^verbatim>\<open>std::terminate\<close> runs).
\<close>

datatype 'a result = Returned 'a | Escaped thrown | Crashed

definition emit :: "event \<Rightarrow> world \<Rightarrow> world" where
  "emit ev w = w\<lparr>trace := trace w @ [ev]\<rparr>"

text \<open>
  Modelled from the spec: \<^verbatim>\<open>utils::ErrorHandler\<close> (utils/error_handler.hpp is not
  among the embedded files). The spec has failures "logged with component name and
  reason"; its \<^verbatim>\<open>handleInitializationError\<close>, \<^verbatim>\<open>handleSystemError\<close> and
  \<^verbatim>\<open>handleException\<close> are taken to write one log line and return, like the
  \<^verbatim>\<open>std::cout\<close> statements of the file itself.
\<close>

definition log_line :: "message \<Rightarrow> world \<Rightarrow> world" where
  "log_line m w = emit (Logged m) w"

definition store_running :: "bool \<Rightarrow> world \<Rightarrow> world" where
  "store_running b w = emit (StoredRunning b) (w\<lparr>running := b\<rparr>)"

definition store_shutdown_requested :: "bool \<Rightarrow> world \<Rightarrow> world" where
  "store_shutdown_requested b w =
     emit (StoredShutdownRequested b) (w\<lparr>shutdown_requested := b\<rparr>)"

text \<open>
  \<^verbatim>\<open>ptr->f()\<close>: \<open>None\<close> when the smart pointer is null (undefined behaviour in
  C++), otherwise the outcome that the environment gives the call, recorded in the trace.
\<close>

definition arrow :: "env \<Rightarrow> component \<Rightarrow> operation \<Rightarrow> world \<Rightarrow> (outcome \<times> world) option" where
  "arrow e c m w =
     (if present e c
      then Some (behaviour e c m, emit (Called c m (behaviour e c m)) w)
      else None)"

subsection \<open>rollbackStartedComponents\<close>

text \<open>
  One of the three guarded statements of the rollback:
  \<^verbatim>\<open>if (x_started && x_) { x_->stop(); std::cout << "... Rolled back x"; }\<close>
\<close>

definition rollback_one :: "env \<Rightarrow> bool \<Rightarrow> component \<Rightarrow> world \<Rightarrow> unit result \<times> world" where
  "rollback_one e started c w =
     (if started \<and> present e c
      then (case arrow e c Stop w of
              None \<Rightarrow> (Crashed, w)
            | Some (Returns _, w') \<Rightarrow> (Returned (), log_line (RolledBack c) w')
            | Some (Throws t, w') \<Rightarrow> (Escaped t, w'))
      else (Returned (), w))"

text \<open>The body of the \<^verbatim>\<open>try\<close> block: statistics collector, message broadcaster,
  connection acceptor, then the line "Component rollback completed successfully".\<close>

definition rollback_try :: "env \<Rightarrow> bool \<Rightarrow> bool \<Rightarrow> bool \<Rightarrow> world \<Rightarrow> unit result \<times> world" where
  "rollback_try e connection_acceptor_started message_broadcaster_started
       statistics_collector_started w =
     (case rollback_one e statistics_collector_started StatisticsCollector w of
        (Returned _, w1) \<Rightarrow>
          (case rollback_one e message_broadcaster_started MessageBroadcaster w1 of
             (Returned _, w2) \<Rightarrow>
               (case rollback_one e connection_acceptor_started ConnectionAcceptor w2 of
                  (Returned _, w3) \<Rightarrow> (Returned (), log_line RollbackCompleted w3)
                | (Escaped t, w3) \<Rightarrow> (Escaped t, w3)
                | (Crashed, w3) \<Rightarrow> (Crashed, w3))
           | (Escaped t, w2) \<Rightarrow> (Escaped t, w2)
           | (Crashed, w2) \<Rightarrow> (Crashed, w2))
      | (Escaped t, w1) \<Rightarrow> (Escaped t, w1)
      | (Crashed, w1) \<Rightarrow> (Crashed, w1))"

text \<open>
  The whole function: the \<^verbatim>\<open>try\<close> block under \<^verbatim>\<open>catch (...)\<close>, whose handler
  logs the line "CRITICAL: Rollback failed - components may be in inconsistent state".
  The function is declared \<^verbatim>\<open>noexcept\<close>: an exception that left it would end the
  process in \<^verbatim>\<open>std::terminate\<close>.
\<close>

definition rollback_catch_all :: "env \<Rightarrow> bool \<Rightarrow> bool \<Rightarrow> bool \<Rightarrow> world \<Rightarrow> unit result \<times> world" where
  "rollback_catch_all e connection_acceptor_started message_broadcaster_started
       statistics_collector_started w =
     (case rollback_try e connection_acceptor_started message_broadcaster_started
             statistics_collector_started w of
        (Returned _, w') \<Rightarrow> (Returned (), w')
      | (Escaped t, w') \<Rightarrow> (Returned (), log_line RollbackFailed w')
      | (Crashed, w') \<Rightarrow> (Crashed, w'))"

definition rollbackStartedComponents ::
  "env \<Rightarrow> bool \<Rightarrow> bool \<Rightarrow> bool \<Rightarrow> world \<Rightarrow> unit result \<times> world" where
  "rollbackStartedComponents e connection_acceptor_started message_broadcaster_started
       statistics_collector_started w =
     (case rollback_catch_all e connection_acceptor_started message_broadcaster_started
             statistics_collector_started w of
        (Returned _, w') \<Rightarrow> (Returned (), w')
      | (Escaped t, w') \<Rightarrow> (Crashed, w')
      | (Crashed, w') \<Rightarrow> (Crashed, w'))"

subsection \<open>start\<close>

text \<open>
  \<^verbatim>\<open>rollbackStartedComponents(...); return false;\<close> as it stands after a failed
  start of the message broadcaster and of the statistics collector, and at the end of
  the exception handler.
\<close>

definition rollback_return_false :: "env \<Rightarrow> bool \<Rightarrow> bool \<Rightarrow> bool \<Rightarrow> world \<Rightarrow> bool result \<times> world" where
  "rollback_return_false e connection_acceptor_started message_broadcaster_started
       statistics_collector_started w =
     (case rollbackStartedComponents e connection_acceptor_started
             message_broadcaster_started statistics_collector_started w of
        (Returned _, w') \<Rightarrow> (Returned False, w')
      | (Escaped t, w') \<Rightarrow> (Escaped t, w')
      | (Crashed, w') \<Rightarrow> (Crashed, w'))"

text \<open>
  The handler \<^verbatim>\<open>catch (const std::exception& e)\<close> of \<^verbatim>\<open>start\<close>, entered with the
  values that the three local flags have where the exception was thrown. An exception of
  another type passes the handler by and leaves \<^verbatim>\<open>start\<close>.
\<close>

definition start_catch ::
  "env \<Rightarrow> thrown \<Rightarrow> bool \<Rightarrow> bool \<Rightarrow> bool \<Rightarrow> world \<Rightarrow> bool result \<times> world" where
  "start_catch e t connection_acceptor_started message_broadcaster_started
       statistics_collector_started w =
     (case t of
        StdException \<Rightarrow>
          rollback_return_false e connection_acceptor_started message_broadcaster_started
            statistics_collector_started (log_line StartFailedException w)
      | OtherException \<Rightarrow> (Escaped OtherException, w))"

definition start :: "env \<Rightarrow> world \<Rightarrow> bool result \<times> world" where
  "start e w =
     (if running w then (Returned True, log_line ServerAlreadyRunning w)
      else
        (case arrow e ConnectionAcceptor Start w of
           None \<Rightarrow> (Crashed, w)
         | Some (Throws t, w1) \<Rightarrow> start_catch e t False False False w1
         | Some (Returns False, w1) \<Rightarrow>
             (Returned False, log_line (StartFailed ConnectionAcceptor) w1)
         | Some (Returns True, w1) \<Rightarrow>
             (case arrow e MessageBroadcaster Start w1 of
                None \<Rightarrow> (Crashed, w1)
              | Some (Throws t, w2) \<Rightarrow> start_catch e t True False False w2
              | Some (Returns False, w2) \<Rightarrow>
                  rollback_return_false e True False False
                    (log_line (StartFailed MessageBroadcaster) w2)
              | Some (Returns True, w2) \<Rightarrow>
                  (case arrow e StatisticsCollector Start w2 of
                     None \<Rightarrow> (Crashed, w2)
                   | Some (Throws t, w3) \<Rightarrow> start_catch e t True True False w3
                   | Some (Returns False, w3) \<Rightarrow>
                       rollback_return_false e True True False
                         (log_line (StartFailed StatisticsCollector) w3)
                   | Some (Returns True, w3) \<Rightarrow>
                       (Returned True, log_line ServerStarted (store_running True w3))))))"

subsection \<open>stop\<close>

text \<open>One of the four guarded statements of \<^verbatim>\<open>stop\<close>:
  \<^verbatim>\<open>if (x_) { x_->stop(); }\<close>. No handler stands around them, so an exception
  thrown by the call leaves \<^verbatim>\<open>stop\<close>.\<close>

definition guarded_call :: "env \<Rightarrow> component \<Rightarrow> operation \<Rightarrow> world \<Rightarrow> unit result \<times> world" where
  "guarded_call e c m w =
     (if present e c
      then (case arrow e c m w of
              None \<Rightarrow> (Crashed, w)
            | Some (Returns _, w') \<Rightarrow> (Returned (), w')
            | Some (Throws t, w') \<Rightarrow> (Escaped t, w'))
      else (Returned (), w))"

definition stop :: "env \<Rightarrow> world \<Rightarrow> unit result \<times> world" where
  "stop e w =
     (if \<not> running w then (Returned (), w)
      else
        (case guarded_call e ConnectionAcceptor Stop
                (store_running False
                  (store_shutdown_requested True (log_line StoppingServer w))) of
           (Returned _, w1) \<Rightarrow>
             (case guarded_call e MessageBroadcaster Stop w1 of
                (Returned _, w2) \<Rightarrow>
                  (case guarded_call e SessionManager CloseAllSessions w2 of
                     (Returned _, w3) \<Rightarrow>
                       (case guarded_call e StatisticsCollector Stop w3 of
                          (Returned _, w4) \<Rightarrow> (Returned (), log_line ServerStopped w4)
                        | (Escaped t, w4) \<Rightarrow> (Escaped t, w4)
                        | (Crashed, w4) \<Rightarrow> (Crashed, w4))
                   | (Escaped t, w3) \<Rightarrow> (Escaped t, w3)
                   | (Crashed, w3) \<Rightarrow> (Crashed, w3))
              | (Escaped t, w2) \<Rightarrow> (Escaped t, w2)
              | (Crashed, w2) \<Rightarrow> (Crashed, w2))
         | (Escaped t, w1) \<Rightarrow> (Escaped t, w1)
         | (Crashed, w1) \<Rightarrow> (Crashed, w1)))"

subsection \<open>initialize\<close>

text \<open>
  The handler \<^verbatim>\<open>catch (const std::exception& e)\<close> of \<^verbatim>\<open>initialize\<close>: it logs
  and returns false. An exception of another type leaves \<^verbatim>\<open>initialize\<close>.
\<close>

definition initialize_catch :: "thrown \<Rightarrow> world \<Rightarrow> bool result \<times> world" where
  "initialize_catch t w =
     (case t of
        StdException \<Rightarrow> (Returned False, log_line InitFailedException w)
      | OtherException \<Rightarrow> (Escaped OtherException, w))"

text \<open>
  The second half of the \<^verbatim>\<open>try\<close> block: the four callbacks are handed to the
  connection acceptor (two), the session manager and the message broadcaster, then the
  line that the server is initialized is written. The callbacks themselves (closures
  over the event handler and the weak pointer to the server) run only later, when a
  component fires them, and are not part of what \<^verbatim>\<open>initialize\<close> does.
\<close>

definition set_up_callbacks :: "env \<Rightarrow> world \<Rightarrow> bool result \<times> world" where
  "set_up_callbacks e w =
     (case arrow e ConnectionAcceptor SetAcceptCallback w of
        None \<Rightarrow> (Crashed, w)
      | Some (Throws t, w1) \<Rightarrow> initialize_catch t w1
      | Some (Returns _, w1) \<Rightarrow>
          (case arrow e ConnectionAcceptor SetErrorCallback w1 of
             None \<Rightarrow> (Crashed, w1)
           | Some (Throws t, w2) \<Rightarrow> initialize_catch t w2
           | Some (Returns _, w2) \<Rightarrow>
               (case arrow e SessionManager SetSessionCallback w2 of
                  None \<Rightarrow> (Crashed, w2)
                | Some (Throws t, w3) \<Rightarrow> initialize_catch t w3
                | Some (Returns _, w3) \<Rightarrow>
                    (case arrow e MessageBroadcaster SetBroadcastCallback w3 of
                       None \<Rightarrow> (Crashed, w3)
                     | Some (Throws t, w4) \<Rightarrow> initialize_catch t w4
                     | Some (Returns _, w4) \<Rightarrow>
                         (Returned True, log_line ServerInitialized w4)))))"

definition initialize :: "env \<Rightarrow> world \<Rightarrow> bool result \<times> world" where
  "initialize e w =
     (case arrow e ConnectionAcceptor Initialize w of
        None \<Rightarrow> (Crashed, w)
      | Some (Throws t, w1) \<Rightarrow> initialize_catch t w1
      | Some (Returns False, w1) \<Rightarrow>
          (Returned False, log_line (InitializationFailed ConnectionAcceptor) w1)
      | Some (Returns True, w1) \<Rightarrow>
          (case arrow e MessageBroadcaster Initialize w1 of
             None \<Rightarrow> (Crashed, w1)
           | Some (Throws t, w2) \<Rightarrow> initialize_catch t w2
           | Some (Returns False, w2) \<Rightarrow>
               (Returned False, log_line (InitializationFailed MessageBroadcaster) w2)
           | Some (Returns True, w2) \<Rightarrow>
               (case arrow e StatisticsCollector Initialize w2 of
                  None \<Rightarrow> (Crashed, w2)
                | Some (Throws t, w3) \<Rightarrow> initialize_catch t w3
                | Some (Returns False, w3) \<Rightarrow>
                    (Returned False, log_line (InitializationFailed StatisticsCollector) w3)
                | Some (Returns True, w3) \<Rightarrow> set_up_callbacks e w3)))"

subsection \<open>main\<close>

text \<open>
  Modelled from the spec: \<^verbatim>\<open>siren::core::MasterController\<close>
  (core/master_controller.hpp is not among the embedded files). The spec gives its
  lifecycle surface as \<^verbatim>\<open>initialize() -> bool\<close>, \<^verbatim>\<open>start() -> bool\<close> and
  \<^verbatim>\<open>run()\<close>, which blocks until the controller is stopped. What these three calls
  do is a parameter of \<open>main\<close>: each returns or throws, and \<^verbatim>\<open>run()\<close> may also
  block for ever. The queries \<^verbatim>\<open>getSystemState()\<close>, \<^verbatim>\<open>isHealthy()\<close> and
  \<^verbatim>\<open>getPerformanceMetrics()\<close> only feed output lines and are taken to return, as
  are the statements of \<^verbatim>\<open>main\<close> before the controller is used (the version and
  configuration lines, the test data point, the construction of the controller).
\<close>

datatype run_outcome = RunReturns | RunThrows thrown | RunBlocks

record controller =
  controller_initialize :: outcome
  controller_start :: outcome
  controller_run :: run_outcome

datatype controller_call = CallInitialize | CallStart | CallRun

text \<open>
  How the process ends: \<^verbatim>\<open>main\<close> returns an exit code, an exception that nothing
  catches ends it in \<^verbatim>\<open>std::terminate\<close>, or it never ends.
\<close>

datatype exit_status = ExitCode int | Terminated | NeverExits

text \<open>The result of \<open>main\<close> with the calls it made on the controller, in order.\<close>

definition main :: "controller \<Rightarrow> exit_status \<times> controller_call list" where
  "main c =
     (case controller_initialize c of
        Throws t \<Rightarrow> (Terminated, [CallInitialize])
      | Returns False \<Rightarrow> (ExitCode 1, [CallInitialize])
      | Returns True \<Rightarrow>
          (case controller_start c of
             Throws t \<Rightarrow> (Terminated, [CallInitialize, CallStart])
           | Returns False \<Rightarrow> (ExitCode 1, [CallInitialize, CallStart])
           | Returns True \<Rightarrow>
               (case controller_run c of
                  RunThrows t \<Rightarrow> (Terminated, [CallInitialize, CallStart, CallRun])
                | RunBlocks \<Rightarrow> (NeverExits, [CallInitialize, CallStart, CallRun])
                | RunReturns \<Rightarrow> (ExitCode 0, [CallInitialize, CallStart, CallRun]))))"

subsection \<open>Reading a trace\<close>

text \<open>The events that a call added: the trace after it, without the trace before it.\<close>

definition emitted :: "world \<Rightarrow> world \<Rightarrow> event list" where
  "emitted w w' = drop (length (trace w)) (trace w')"

text \<open>The calls into the components that a trace records, in call order.\<close>

fun calls :: "event list \<Rightarrow> (component \<times> operation) list" where
  "calls [] = []"
| "calls (Called c m out # evs) = (c, m) # calls evs"
| "calls (ev # evs) = calls evs"

text \<open>The values that a trace records as stored to the running flag, in order.\<close>

fun running_stores :: "event list \<Rightarrow> bool list" where
  "running_stores [] = []"
| "running_stores (StoredRunning b # evs) = b # running_stores evs"
| "running_stores (ev # evs) = running_stores evs"

subsection \<open>The vocabulary of the specification\<close>

text \<open>The order in which \<^verbatim>\<open>initialize\<close> and \<^verbatim>\<open>start\<close> go through the
  components, and the calls of \<^verbatim>\<open>stop\<close> in their order.\<close>

definition startup_order :: "component list" where
  "startup_order = [ConnectionAcceptor, MessageBroadcaster, StatisticsCollector]"

definition stop_order :: "(component \<times> operation) list" where
  "stop_order =
     [(ConnectionAcceptor, Stop), (MessageBroadcaster, Stop),
      (SessionManager, CloseAllSessions), (StatisticsCollector, Stop)]"

text \<open>A step \<open>m\<close> (\<open>Initialize\<close> or \<open>Start\<close>) of component \<open>c\<close> succeeds when the
  component is there and its member function returns true.\<close>

definition succeeds :: "env \<Rightarrow> operation \<Rightarrow> component \<Rightarrow> bool" where
  "succeeds e m c = (present e c \<and> behaviour e c m = Returns True)"

text \<open>The components whose step succeeds before the first one whose step does not.\<close>

definition succeeded_before :: "env \<Rightarrow> operation \<Rightarrow> component list \<Rightarrow> component list" where
  "succeeded_before e m cs = takeWhile (succeeds e m) cs"

text \<open>The first step that is made and does not return true, with its outcome: \<open>None\<close>
  when every step returns true, and when a null pointer is met before any step fails.\<close>

fun first_failure :: "env \<Rightarrow> operation \<Rightarrow> component list \<Rightarrow> (component \<times> outcome) option" where
  "first_failure e m [] = None"
| "first_failure e m (c # cs) =
     (if \<not> present e c then None
      else if behaviour e c m = Returns True then first_failure e m cs
      else Some (c, behaviour e c m))"

text \<open>A list of calls made one after the other until one throws: the calls up to and
  including the first that throws, all of them when none does.\<close>

fun until_throw :: "env \<Rightarrow> (component \<times> operation) list \<Rightarrow> (component \<times> operation) list" where
  "until_throw e [] = []"
| "until_throw e ((c, m) # cms) =
     (case behaviour e c m of
        Returns b \<Rightarrow> (c, m) # until_throw e cms
      | Throws t \<Rightarrow> [(c, m)])"


text \<open>The components on which the step is attempted: those before the first one whose
  step does not return true, and that one, unless a null pointer stands in its place.\<close>

fun attempted :: "env \<Rightarrow> operation \<Rightarrow> component list \<Rightarrow> component list" where
  "attempted e m [] = []"
| "attempted e m (c # cs) =
     (if \<not> present e c then []
      else if behaviour e c m = Returns True then c # attempted e m cs
      else [c])"

text \<open>The callback registrations of \<^verbatim>\<open>initialize\<close> in their order: accept and
  connection error on the connection acceptor, session event on the session manager,
  broadcast completion on the message broadcaster.\<close>

definition callback_order :: "(component \<times> operation) list" where
  "callback_order =
     [(ConnectionAcceptor, SetAcceptCallback), (ConnectionAcceptor, SetErrorCallback),
      (SessionManager, SetSessionCallback), (MessageBroadcaster, SetBroadcastCallback)]"

text \<open>The four member functions that register a callback.\<close>

definition registers_callback :: "component \<times> operation \<Rightarrow> bool" where
  "registers_callback cm =
     (snd cm = SetAcceptCallback \<or> snd cm = SetErrorCallback
      \<or> snd cm = SetSessionCallback \<or> snd cm = SetBroadcastCallback)"

text \<open>Every line "Rolled back X" of a trace stands right after a stop call of X that
  returned: the trace does not begin with such a line, and such a line follows nothing
  but the event of that call.\<close>

fun rolled_back_after_stop :: "event list \<Rightarrow> bool" where
  "rolled_back_after_stop [] = True"
| "rolled_back_after_stop (Logged (RolledBack c) # evs) = False"
| "rolled_back_after_stop (Called c Stop (Returns b) # Logged (RolledBack c') # evs) =
     (c = c' \<and> rolled_back_after_stop evs)"
| "rolled_back_after_stop (ev # evs) = rolled_back_after_stop evs"

subsection \<open>Sequences of calls\<close>

text \<open>
  The functions of the lifecycle manager make their calls one after the other, each
  call under the same guard and with the same way out on an exception. The following
  functions run such a sequence from a list; the functions of the program are their
  instances, and what holds of a sequence is proved by induction on the list.
\<close>

text \<open>Guarded calls as in \<^verbatim>\<open>stop\<close>.\<close>

fun guarded_calls :: "env \<Rightarrow> (component \<times> operation) list \<Rightarrow> world \<Rightarrow> unit result \<times> world" where
  "guarded_calls e [] w = (Returned (), w)"
| "guarded_calls e ((c, m) # cms) w =
     (case guarded_call e c m w of
        (Returned _, w') \<Rightarrow> guarded_calls e cms w'
      | (Escaped t, w') \<Rightarrow> (Escaped t, w')
      | (Crashed, w') \<Rightarrow> (Crashed, w'))"


text \<open>Rollback steps as in the \<^verbatim>\<open>try\<close> block of the rollback, each with its flag.\<close>

fun rollback_steps :: "env \<Rightarrow> (bool \<times> component) list \<Rightarrow> world \<Rightarrow> unit result \<times> world" where
  "rollback_steps e [] w = (Returned (), log_line RollbackCompleted w)"
| "rollback_steps e ((started, c) # scs) w =
     (case rollback_one e started c w of
        (Returned _, w') \<Rightarrow> rollback_steps e scs w'
      | (Escaped t, w') \<Rightarrow> (Escaped t, w')
      | (Crashed, w') \<Rightarrow> (Crashed, w'))"

text \<open>Callback registrations as in the second half of \<^verbatim>\<open>initialize\<close>.\<close>

fun registrations :: "env \<Rightarrow> (component \<times> operation) list \<Rightarrow> world \<Rightarrow> bool result \<times> world" where
  "registrations e [] w = (Returned True, log_line ServerInitialized w)"
| "registrations e ((c, m) # cms) w =
     (case arrow e c m w of
        None \<Rightarrow> (Crashed, w)
      | Some (Throws t, w') \<Rightarrow> initialize_catch t w'
      | Some (Returns _, w') \<Rightarrow> registrations e cms w')"

text \<open>The events of a list of calls that were made, each with its outcome.\<close>

definition call_events :: "env \<Rightarrow> (component \<times> operation) list \<Rightarrow> event list" where
  "call_events e cms =
     map (\<lambda>cm. Called (fst cm) (snd cm) (behaviour e (fst cm) (snd cm))) cms"

text \<open>The events of a rollback that has the components of the list to stop.\<close>

fun rollback_events :: "env \<Rightarrow> component list \<Rightarrow> event list" where
  "rollback_events e [] = [Logged RollbackCompleted]"
| "rollback_events e (c # cs) =
     (case behaviour e c Stop of
        Returns b \<Rightarrow> Called c Stop (Returns b) # Logged (RolledBack c) # rollback_events e cs
      | Throws t \<Rightarrow> [Called c Stop (Throws t), Logged RollbackFailed])"

text \<open>The components that a rollback called with the three flags has to stop, in the
  order in which it goes through them.\<close>

definition to_roll_back :: "env \<Rightarrow> bool \<Rightarrow> bool \<Rightarrow> bool \<Rightarrow> component list" where
  "to_roll_back e connection_acceptor_started message_broadcaster_started
       statistics_collector_started =
     map snd (filter (\<lambda>sc. fst sc \<and> present e (snd sc))
       [(statistics_collector_started, StatisticsCollector),
        (message_broadcaster_started, MessageBroadcaster),
        (connection_acceptor_started, ConnectionAcceptor)])"

subsection \<open>What a failing step leaves behind\<close>

text \<open>
  The result and the events of \<^verbatim>\<open>start\<close> from the step that fails on, given the
  component \<open>c\<close> whose start does not return true and the components started before
  it, latest first. A false return from the connection acceptor is the one failure
  after which \<^verbatim>\<open>start\<close> does not call the rollback.
\<close>

definition failed_start_result :: "env \<Rightarrow> component \<Rightarrow> bool result" where
  "failed_start_result e c =
     (case behaviour e c Start of
        Returns b \<Rightarrow> Returned False
      | Throws StdException \<Rightarrow> Returned False
      | Throws OtherException \<Rightarrow> Escaped OtherException)"

definition failed_start_events :: "env \<Rightarrow> component \<Rightarrow> component list \<Rightarrow> event list" where
  "failed_start_events e c started =
     Called c Start (behaviour e c Start) #
     (case behaviour e c Start of
        Returns b \<Rightarrow>
          Logged (StartFailed c) #
          (if c = ConnectionAcceptor then [] else rollback_events e started)
      | Throws StdException \<Rightarrow> Logged StartFailedException # rollback_events e started
      | Throws OtherException \<Rightarrow> [])"

text \<open>The same for \<^verbatim>\<open>initialize\<close>, which has no rollback.\<close>

definition failed_initialize_result :: "env \<Rightarrow> component \<Rightarrow> bool result" where
  "failed_initialize_result e c =
     (case behaviour e c Initialize of
        Returns b \<Rightarrow> Returned False
      | Throws StdException \<Rightarrow> Returned False
      | Throws OtherException \<Rightarrow> Escaped OtherException)"

definition failed_initialize_events :: "env \<Rightarrow> component \<Rightarrow> event list" where
  "failed_initialize_events e c =
     Called c Initialize (behaviour e c Initialize) #
     (case behaviour e c Initialize of
        Returns b \<Rightarrow> [Logged (InitializationFailed c)]
      | Throws StdException \<Rightarrow> [Logged InitFailedException]
      | Throws OtherException \<Rightarrow> [])"

text \<open>The events of a list of callback registrations.\<close>

fun registration_events :: "env \<Rightarrow> (component \<times> operation) list \<Rightarrow> event list" where
  "registration_events e [] = [Logged ServerInitialized]"
| "registration_events e ((c, m) # cms) =
     (if \<not> present e c then []
      else Called c m (behaviour e c m) #
        (case behaviour e c m of
           Returns b \<Rightarrow> registration_events e cms
         | Throws StdException \<Rightarrow> [Logged InitFailedException]
         | Throws OtherException \<Rightarrow> []))"

subsection \<open>Concrete environments\<close>

text \<open>A world in which nothing has happened yet, and environments to run the
  functions in: one in which every component is there and every call returns (true,
  where it returns a value), and variations of it in one place each.\<close>

definition fresh :: world where
  "fresh = \<lparr>running = False, shutdown_requested = False, trace = []\<rparr>"

definition healthy :: env where
  "healthy = \<lparr>present = (\<lambda>c. True), behaviour = (\<lambda>c m. Returns True)\<rparr>"

definition with_outcome :: "component \<Rightarrow> operation \<Rightarrow> outcome \<Rightarrow> env \<Rightarrow> env" where
  "with_outcome c m out e =
     e\<lparr>behaviour := (\<lambda>c' m'. if c' = c \<and> m' = m then out else behaviour e c' m')\<rparr>"

definition without :: "component \<Rightarrow> env \<Rightarrow> env" where
  "without c e = e\<lparr>present := (\<lambda>c'. c' \<noteq> c \<and> present e c')\<rparr>"

text \<open>The statistics collector does not start.\<close>

definition collector_start_fails :: env where
  "collector_start_fails = with_outcome StatisticsCollector Start (Returns False) healthy"

text \<open>The statistics collector does not start, and the message broadcaster throws
  when the rollback stops it.\<close>

definition broadcaster_stop_throws :: env where
  "broadcaster_stop_throws =
     with_outcome MessageBroadcaster Stop (Throws StdException) collector_start_fails"

text \<open>The start of the connection acceptor throws something that is not a
  \<^verbatim>\<open>std::exception\<close>.\<close>

definition acceptor_start_throws_other :: env where
  "acceptor_start_throws_other =
     with_outcome ConnectionAcceptor Start (Throws OtherException) healthy"



text \<open>The message broadcaster does not initialize.\<close>

definition broadcaster_initialize_fails :: env where
  "broadcaster_initialize_fails =
     with_outcome MessageBroadcaster Initialize (Returns False) healthy"

text \<open>The connection acceptor throws when the error callback is handed to it.\<close>

definition error_callback_throws :: env where
  "error_callback_throws =
     with_outcome ConnectionAcceptor SetErrorCallback (Throws StdException) healthy"

text \<open>The world after \<^verbatim>\<open>start\<close> has run once in a fresh world.\<close>

definition after_start :: "env \<Rightarrow> world" where
  "after_start e = snd (start e fresh)"

section \<open>Properties\<close>

subsection \<open>Traces\<close>

lemma emitted_append [simp]: "trace w' = trace w @ evs \<Longrightarrow> emitted w w' = evs"
  by (simp add: emitted_def)

lemma calls_append: "calls (xs @ ys) = calls xs @ calls ys"
  by (induction xs rule: calls.induct) simp_all

lemma running_stores_append:
  "running_stores (xs @ ys) = running_stores xs @ running_stores ys"
  by (induction xs rule: running_stores.induct) simp_all


subsection \<open>The rollback in closed form\<close>

lemma rollback_one_eq:
  "rollback_one e s c w =
     (if s \<and> present e c
      then (case behaviour e c Stop of
              Returns b \<Rightarrow>
                (Returned (),
                 w\<lparr>trace := trace w @ [Called c Stop (Returns b), Logged (RolledBack c)]\<rparr>)
            | Throws t \<Rightarrow> (Escaped t, w\<lparr>trace := trace w @ [Called c Stop (Throws t)]\<rparr>))
      else (Returned (), w))"
  by (simp add: rollback_one_def arrow_def log_line_def emit_def split: outcome.split)

lemma rollback_try_as_sequence:
  "rollback_try e ca mb sc w =
     rollback_steps e
       [(sc, StatisticsCollector), (mb, MessageBroadcaster), (ca, ConnectionAcceptor)] w"
  by (simp add: rollback_try_def split: prod.split result.split)

text \<open>The rollback steps under the handler that catches everything: whatever the
  steps do, the handler's result is a return, and the events are those of
  \<open>rollback_events\<close>.\<close>

lemma rollback_steps_caught:
  "(case rollback_steps e scs w of
      (Returned u, w') \<Rightarrow> (Returned (), w')
    | (Escaped t, w') \<Rightarrow> (Returned (), log_line RollbackFailed w')
    | (Crashed, w') \<Rightarrow> (Crashed, w')) =
   (Returned (),
    w\<lparr>trace := trace w @
       rollback_events e (map snd (filter (\<lambda>sc. fst sc \<and> present e (snd sc)) scs))\<rparr>)"
proof (induction scs arbitrary: w)
  case Nil
  show ?case by (simp add: log_line_def emit_def)
next
  case (Cons sc scs)
  obtain s c where sc: "sc = (s, c)" by (cases sc)
  show ?case
    by (simp add: sc rollback_one_eq Cons.IH log_line_def emit_def split: outcome.split)
qed

lemma rollback_catch_all_eq:
  "rollback_catch_all e ca mb sc w =
     (Returned (), w\<lparr>trace := trace w @ rollback_events e (to_roll_back e ca mb sc)\<rparr>)"
  unfolding rollback_catch_all_def rollback_try_as_sequence to_roll_back_def
  by (rule rollback_steps_caught)

lemma rollback_eq:
  "rollbackStartedComponents e ca mb sc w =
     (Returned (), w\<lparr>trace := trace w @ rollback_events e (to_roll_back e ca mb sc)\<rparr>)"
  by (simp add: rollbackStartedComponents_def rollback_catch_all_eq)

lemma calls_rollback_events:
  "calls (rollback_events e cs) = until_throw e (map (\<lambda>c. (c, Stop)) cs)"
  by (induction cs) (simp_all split: outcome.split)

lemma stop_calls_until_throw:
  "filter (\<lambda>cm. snd cm = Stop) (until_throw e (map (\<lambda>c. (c, Stop)) cs)) =
     until_throw e (map (\<lambda>c. (c, Stop)) cs)"
  by (induction cs) (simp_all split: outcome.split)

lemma stop_calls_rollback_events:
  "filter (\<lambda>cm. snd cm = Stop) (calls (rollback_events e cs)) =
     until_throw e (map (\<lambda>c. (c, Stop)) cs)"
  by (simp add: calls_rollback_events stop_calls_until_throw)

lemma until_throw_returns:
  "\<forall>cm\<in>set cms. \<exists>b. behaviour e (fst cm) (snd cm) = Returns b \<Longrightarrow> until_throw e cms = cms"
  by (induction cms) auto

lemma running_stores_rollback_events: "running_stores (rollback_events e cs) = []"
  by (induction cs) (simp_all split: outcome.split)

lemma rolled_back_in_rollback_events:
  "Logged (RolledBack c) \<in> set (rollback_events e cs) \<Longrightarrow> c \<in> set cs"
  by (induction cs) (auto split: outcome.splits)

lemma rollback_failed_in_rollback_events:
  "(Logged RollbackFailed \<in> set (rollback_events e cs)) =
     (\<exists>c t. Called c Stop (Throws t) \<in> set (rollback_events e cs))"
  by (induction cs) (auto split: outcome.splits)

lemma rolled_back_after_stop_rollback_events:
  "rolled_back_after_stop (rollback_events e cs)"
  by (induction cs) (simp_all split: outcome.split)

lemma rolled_back_in_rollback_events_returns:
  "Logged (RolledBack c) \<in> set (rollback_events e cs) \<Longrightarrow>
   c \<in> set cs \<and> (\<exists>b. behaviour e c Stop = Returns b)"
  by (induction cs) (auto split: outcome.splits)

subsection \<open>stop in closed form\<close>

lemma guarded_call_eq:
  "guarded_call e c m w =
     (if present e c
      then (case behaviour e c m of
              Returns b \<Rightarrow> (Returned (), w\<lparr>trace := trace w @ [Called c m (Returns b)]\<rparr>)
            | Throws t \<Rightarrow> (Escaped t, w\<lparr>trace := trace w @ [Called c m (Throws t)]\<rparr>))
      else (Returned (), w))"
  by (simp add: guarded_call_def arrow_def emit_def split: outcome.split)

lemma stop_as_sequence:
  "stop e w =
     (if \<not> running w then (Returned (), w)
      else (case guarded_calls e stop_order
                   (store_running False
                     (store_shutdown_requested True (log_line StoppingServer w))) of
              (Returned _, w4) \<Rightarrow> (Returned (), log_line ServerStopped w4)
            | (Escaped t, w4) \<Rightarrow> (Escaped t, w4)
            | (Crashed, w4) \<Rightarrow> (Crashed, w4)))"
  by (simp add: stop_def stop_order_def split: prod.split result.split)

lemma guarded_calls_world:
  "snd (guarded_calls e cms w) =
     w\<lparr>trace := trace w @
        call_events e (until_throw e (filter (\<lambda>cm. present e (fst cm)) cms))\<rparr>"
proof (induction cms arbitrary: w)
  case Nil
  show ?case by (simp add: call_events_def)
next
  case (Cons cm cms)
  obtain c m where cm: "cm = (c, m)" by (cases cm)
  show ?case
    by (simp add: cm guarded_call_eq Cons.IH call_events_def split: outcome.split)
qed

lemma guarded_calls_not_crashed: "fst (guarded_calls e cms w) \<noteq> Crashed"
proof (induction cms arbitrary: w)
  case Nil
  show ?case by simp
next
  case (Cons cm cms)
  obtain c m where cm: "cm = (c, m)" by (cases cm)
  show ?case
    by (simp add: cm guarded_call_eq Cons.IH split: outcome.split)
qed

lemma stop_world:
  assumes "running w"
  shows "snd (stop e w) =
     w\<lparr>running := False, shutdown_requested := True,
       trace := trace w
         @ [Logged StoppingServer, StoredShutdownRequested True, StoredRunning False]
         @ call_events e (until_throw e (filter (\<lambda>cm. present e (fst cm)) stop_order))
         @ (if fst (stop e w) = Returned () then [Logged ServerStopped] else [])\<rparr>"
proof -
  define w0 where
    "w0 = store_running False (store_shutdown_requested True (log_line StoppingServer w))"
  obtain r w4 where seq: "guarded_calls e stop_order w0 = (r, w4)"
    by (cases "guarded_calls e stop_order w0")
  have w4: "w4 = w0\<lparr>trace := trace w0 @
       call_events e (until_throw e (filter (\<lambda>cm. present e (fst cm)) stop_order))\<rparr>"
    using guarded_calls_world [of e stop_order w0] by (simp add: seq)
  have r: "r \<noteq> Crashed"
    using guarded_calls_not_crashed [of e stop_order w0] by (simp add: seq)
  have "stop e w =
     (case r of
        Returned u \<Rightarrow> (Returned (), log_line ServerStopped w4)
      | Escaped t \<Rightarrow> (Escaped t, w4)
      | Crashed \<Rightarrow> (Crashed, w4))"
    using assms seq by (simp add: stop_as_sequence w0_def)
  then show ?thesis
    using r
    by (cases r)
      (simp_all add: w4 w0_def log_line_def emit_def store_running_def
         store_shutdown_requested_def)
qed

lemma stop_clears_running: "\<not> running (snd (stop e w))"
  by (cases "running w") (simp_all add: stop_world, simp add: stop_def)




subsection \<open>start in closed form\<close>

text \<open>How far a sequence of three steps gets: a null pointer or a step that does not
  return true at the first, second or third component, or three steps that succeed.\<close>

lemma startup_cases [case_names null1 fail1 null2 fail2 null3 fail3 all]:
  obtains
    "\<not> present e ConnectionAcceptor"
  | "present e ConnectionAcceptor" "behaviour e ConnectionAcceptor m \<noteq> Returns True"
  | "succeeds e m ConnectionAcceptor" "\<not> present e MessageBroadcaster"
  | "succeeds e m ConnectionAcceptor" "present e MessageBroadcaster"
      "behaviour e MessageBroadcaster m \<noteq> Returns True"
  | "succeeds e m ConnectionAcceptor" "succeeds e m MessageBroadcaster"
      "\<not> present e StatisticsCollector"
  | "succeeds e m ConnectionAcceptor" "succeeds e m MessageBroadcaster"
      "present e StatisticsCollector" "behaviour e StatisticsCollector m \<noteq> Returns True"
  | "succeeds e m ConnectionAcceptor" "succeeds e m MessageBroadcaster"
      "succeeds e m StatisticsCollector"
  unfolding succeeds_def by blast

lemmas start_defs = start_def start_catch_def rollback_return_false_def rollback_eq
  to_roll_back_def arrow_def log_line_def emit_def store_running_def
  failed_start_result_def failed_start_events_def succeeds_def

lemma start_null1:
  "\<not> running w \<Longrightarrow> \<not> present e ConnectionAcceptor \<Longrightarrow> start e w = (Crashed, w)"
  by (simp add: start_defs)

lemma start_fail1:
  "\<not> running w \<Longrightarrow> present e ConnectionAcceptor \<Longrightarrow>
   behaviour e ConnectionAcceptor Start \<noteq> Returns True \<Longrightarrow>
   start e w =
     (failed_start_result e ConnectionAcceptor,
      w\<lparr>trace := trace w @ failed_start_events e ConnectionAcceptor []\<rparr>)"
  by (simp add: start_defs split: outcome.split thrown.split bool.split)

lemma start_null2:
  "\<not> running w \<Longrightarrow> succeeds e Start ConnectionAcceptor \<Longrightarrow>
   \<not> present e MessageBroadcaster \<Longrightarrow>
   start e w =
     (Crashed, w\<lparr>trace := trace w @ [Called ConnectionAcceptor Start (Returns True)]\<rparr>)"
  by (simp add: start_defs)

lemma start_fail2:
  "\<not> running w \<Longrightarrow> succeeds e Start ConnectionAcceptor \<Longrightarrow>
   present e MessageBroadcaster \<Longrightarrow>
   behaviour e MessageBroadcaster Start \<noteq> Returns True \<Longrightarrow>
   start e w =
     (failed_start_result e MessageBroadcaster,
      w\<lparr>trace := trace w @
         Called ConnectionAcceptor Start (Returns True) #
         failed_start_events e MessageBroadcaster [ConnectionAcceptor]\<rparr>)"
  by (simp add: start_defs split: outcome.split thrown.split bool.split)

lemma start_null3:
  "\<not> running w \<Longrightarrow> succeeds e Start ConnectionAcceptor \<Longrightarrow>
   succeeds e Start MessageBroadcaster \<Longrightarrow> \<not> present e StatisticsCollector \<Longrightarrow>
   start e w =
     (Crashed,
      w\<lparr>trace := trace w @
         [Called ConnectionAcceptor Start (Returns True),
          Called MessageBroadcaster Start (Returns True)]\<rparr>)"
  by (simp add: start_defs)

lemma start_fail3:
  "\<not> running w \<Longrightarrow> succeeds e Start ConnectionAcceptor \<Longrightarrow>
   succeeds e Start MessageBroadcaster \<Longrightarrow> present e StatisticsCollector \<Longrightarrow>
   behaviour e StatisticsCollector Start \<noteq> Returns True \<Longrightarrow>
   start e w =
     (failed_start_result e StatisticsCollector,
      w\<lparr>trace := trace w @
         Called ConnectionAcceptor Start (Returns True) #
         Called MessageBroadcaster Start (Returns True) #
         failed_start_events e StatisticsCollector
           [MessageBroadcaster, ConnectionAcceptor]\<rparr>)"
  by (simp add: start_defs split: outcome.split thrown.split bool.split)

lemma start_all:
  "\<not> running w \<Longrightarrow> succeeds e Start ConnectionAcceptor \<Longrightarrow>
   succeeds e Start MessageBroadcaster \<Longrightarrow> succeeds e Start StatisticsCollector \<Longrightarrow>
   start e w =
     (Returned True,
      w\<lparr>running := True,
        trace := trace w @
         [Called ConnectionAcceptor Start (Returns True),
          Called MessageBroadcaster Start (Returns True),
          Called StatisticsCollector Start (Returns True),
          StoredRunning True, Logged ServerStarted]\<rparr>)"
  by (simp add: start_defs)

lemmas failed_start_simps = failed_start_result_def failed_start_events_def succeeds_def
  startup_order_def succeeded_before_def calls_append stop_calls_rollback_events
  running_stores_append running_stores_rollback_events

lemma rolled_back_in_failed_start:
  "Logged (RolledBack c) \<in> set (failed_start_events e c' st) \<Longrightarrow> c \<in> set st"
  by (auto simp: failed_start_events_def split: outcome.splits thrown.splits if_splits
      dest: rolled_back_in_rollback_events)

lemma rollback_failed_in_failed_start:
  "Logged RollbackFailed \<in> set (failed_start_events e c st) \<Longrightarrow>
   failed_start_result e c = Returned False"
  by (auto simp: failed_start_events_def failed_start_result_def
      split: outcome.splits thrown.splits if_splits)

text \<open>A line "Rolled back X" in what \<^verbatim>\<open>start\<close> emits has the successful start of
  X before it.\<close>

lemma rolled_back_was_started:
  assumes "Logged (RolledBack c) \<in> set (emitted w (snd (start e w)))"
  shows "Called c Start (Returns True) \<in> set (emitted w (snd (start e w)))"
proof (cases "running w")
  case True
  then show ?thesis using assms by (simp add: start_def log_line_def emit_def)
next
  case False
  show ?thesis
  proof (cases rule: startup_cases [where e = e and m = Start])
    case null1
    then show ?thesis using assms False by (simp add: start_null1 emitted_def)
  next
    case fail1
    then show ?thesis using assms False
      by (auto simp: start_fail1 dest: rolled_back_in_failed_start)
  next
    case null2
    then show ?thesis using assms False by (simp add: start_null2)
  next
    case fail2
    then show ?thesis using assms False
      by (auto simp: start_fail2 dest: rolled_back_in_failed_start)
  next
    case null3
    then show ?thesis using assms False by (simp add: start_null3)
  next
    case fail3
    then show ?thesis using assms False
      by (auto simp: start_fail3 dest: rolled_back_in_failed_start)
  next
    case all
    then show ?thesis using assms False by (simp add: start_all)
  qed
qed

lemma to_roll_back_flagged:
  "c \<in> set (to_roll_back e ca mb sc) \<Longrightarrow>
   (c = StatisticsCollector \<and> sc) \<or> (c = MessageBroadcaster \<and> mb)
     \<or> (c = ConnectionAcceptor \<and> ca)"
  by (auto simp: to_roll_back_def split: if_splits)

lemma rolled_back_was_flagged:
  assumes "Logged (RolledBack c)
             \<in> set (emitted w (snd (rollbackStartedComponents e ca mb sc w)))"
  shows "(c = StatisticsCollector \<and> sc) \<or> (c = MessageBroadcaster \<and> mb)
     \<or> (c = ConnectionAcceptor \<and> ca)"
proof -
  have "Logged (RolledBack c) \<in> set (rollback_events e (to_roll_back e ca mb sc))"
    using assms by (simp add: rollback_eq)
  then show ?thesis
    by (intro to_roll_back_flagged rolled_back_in_rollback_events)
qed

lemma to_roll_back_present:
  "c \<in> set (to_roll_back e ca mb sc) \<Longrightarrow> present e c"
  by (auto simp: to_roll_back_def split: if_splits)

lemma rolled_back_after_stop_failed_start:
  "rolled_back_after_stop (failed_start_events e c st)"
  by (simp add: failed_start_events_def rolled_back_after_stop_rollback_events
      split: outcome.split thrown.split)

lemma start_rolled_back_after_stop:
  "rolled_back_after_stop (emitted w (snd (start e w)))"
proof (cases "running w")
  case True
  then show ?thesis by (simp add: start_def log_line_def emit_def)
next
  case False
  show ?thesis
  proof (cases rule: startup_cases [where e = e and m = Start])
    case null1
    then show ?thesis using False by (simp add: start_null1 emitted_def)
  next
    case fail1
    then show ?thesis using False
      by (simp add: start_fail1 rolled_back_after_stop_failed_start)
  next
    case null2
    then show ?thesis using False by (simp add: start_null2)
  next
    case fail2
    then show ?thesis using False
      by (simp add: start_fail2 rolled_back_after_stop_failed_start)
  next
    case null3
    then show ?thesis using False by (simp add: start_null3)
  next
    case fail3
    then show ?thesis using False
      by (simp add: start_fail3 rolled_back_after_stop_failed_start)
  next
    case all
    then show ?thesis using False by (simp add: start_all)
  qed
qed

lemma rolled_back_in_failed_start_returns:
  "Logged (RolledBack c) \<in> set (failed_start_events e c' st) \<Longrightarrow>
   c \<in> set st \<and> (\<exists>b. behaviour e c Stop = Returns b)"
  by (auto simp: failed_start_events_def split: outcome.splits thrown.splits if_splits
      dest: rolled_back_in_rollback_events_returns)

lemma rolled_back_was_present:
  assumes "Logged (RolledBack c) \<in> set (emitted w (snd (start e w)))"
  shows "present e c \<and> (\<exists>b. behaviour e c Stop = Returns b)"
proof (cases "running w")
  case True
  then show ?thesis using assms by (simp add: start_def log_line_def emit_def)
next
  case False
  show ?thesis
  proof (cases rule: startup_cases [where e = e and m = Start])
    case null1
    then show ?thesis using assms False by (simp add: start_null1 emitted_def)
  next
    case fail1
    then show ?thesis using assms False
      by (auto simp: start_fail1 dest: rolled_back_in_failed_start_returns)
  next
    case null2
    then show ?thesis using assms False by (simp add: start_null2)
  next
    case fail2
    then show ?thesis using assms False
      by (auto simp: start_fail2 succeeds_def dest: rolled_back_in_failed_start_returns)
  next
    case null3
    then show ?thesis using assms False by (simp add: start_null3)
  next
    case fail3
    then show ?thesis using assms False
      by (auto simp: start_fail3 succeeds_def dest: rolled_back_in_failed_start_returns)
  next
    case all
    then show ?thesis using assms False by (simp add: start_all)
  qed
qed

lemma rolled_back_was_flagged_present:
  assumes "Logged (RolledBack c)
             \<in> set (emitted w (snd (rollbackStartedComponents e ca mb sc w)))"
  shows "present e c \<and> (\<exists>b. behaviour e c Stop = Returns b)"
proof -
  have "Logged (RolledBack c) \<in> set (rollback_events e (to_roll_back e ca mb sc))"
    using assms by (simp add: rollback_eq)
  then show ?thesis
    using rolled_back_in_rollback_events_returns to_roll_back_present by blast
qed

text \<open>The predicate at work on two traces of two events.\<close>

lemma rolled_back_after_stop_examples:
  "rolled_back_after_stop
     [Called MessageBroadcaster Stop (Returns True), Logged (RolledBack MessageBroadcaster)]
   \<and> \<not> rolled_back_after_stop
     [Logged (RolledBack MessageBroadcaster), Called MessageBroadcaster Stop (Returns True)]
   \<and> \<not> rolled_back_after_stop
     [Called MessageBroadcaster Stop (Throws StdException),
      Logged (RolledBack MessageBroadcaster)]
   \<and> \<not> rolled_back_after_stop
     [Called ConnectionAcceptor Stop (Returns True), Logged (RolledBack MessageBroadcaster)]"
  by simp

text \<open>A rollback that fails inside \<^verbatim>\<open>start\<close> does not keep \<^verbatim>\<open>start\<close> from
  returning false.\<close>

lemma failed_rollback_start_returns:
  assumes "\<not> running w" and "Logged RollbackFailed \<in> set (emitted w (snd (start e w)))"
  shows "fst (start e w) = Returned False \<and> \<not> running (snd (start e w))"
proof (cases rule: startup_cases [where e = e and m = Start])
  case null1
  then show ?thesis using assms by (simp add: start_null1 emitted_def)
next
  case fail1
  then show ?thesis using assms
    by (auto simp: start_fail1 dest: rollback_failed_in_failed_start)
next
  case null2
  then show ?thesis using assms by (simp add: start_null2)
next
  case fail2
  then show ?thesis using assms
    by (auto simp: start_fail2 dest: rollback_failed_in_failed_start)
next
  case null3
  then show ?thesis using assms by (simp add: start_null3)
next
  case fail3
  then show ?thesis using assms
    by (auto simp: start_fail3 dest: rollback_failed_in_failed_start)
next
  case all
  then show ?thesis using assms by (simp add: start_all)
qed

subsection \<open>initialize in closed form\<close>

lemmas initialize_defs = initialize_def initialize_catch_def arrow_def log_line_def emit_def
  failed_initialize_result_def failed_initialize_events_def succeeds_def

lemma initialize_null1:
  "\<not> present e ConnectionAcceptor \<Longrightarrow> initialize e w = (Crashed, w)"
  by (simp add: initialize_defs)

lemma initialize_fail1:
  "present e ConnectionAcceptor \<Longrightarrow>
   behaviour e ConnectionAcceptor Initialize \<noteq> Returns True \<Longrightarrow>
   initialize e w =
     (failed_initialize_result e ConnectionAcceptor,
      w\<lparr>trace := trace w @ failed_initialize_events e ConnectionAcceptor\<rparr>)"
  by (simp add: initialize_defs split: outcome.split thrown.split bool.split)

lemma initialize_null2:
  "succeeds e Initialize ConnectionAcceptor \<Longrightarrow> \<not> present e MessageBroadcaster \<Longrightarrow>
   initialize e w =
     (Crashed,
      w\<lparr>trace := trace w @ [Called ConnectionAcceptor Initialize (Returns True)]\<rparr>)"
  by (simp add: initialize_defs)

lemma initialize_fail2:
  "succeeds e Initialize ConnectionAcceptor \<Longrightarrow> present e MessageBroadcaster \<Longrightarrow>
   behaviour e MessageBroadcaster Initialize \<noteq> Returns True \<Longrightarrow>
   initialize e w =
     (failed_initialize_result e MessageBroadcaster,
      w\<lparr>trace := trace w @
         Called ConnectionAcceptor Initialize (Returns True) #
         failed_initialize_events e MessageBroadcaster\<rparr>)"
  by (simp add: initialize_defs split: outcome.split thrown.split bool.split)

lemma initialize_null3:
  "succeeds e Initialize ConnectionAcceptor \<Longrightarrow>
   succeeds e Initialize MessageBroadcaster \<Longrightarrow> \<not> present e StatisticsCollector \<Longrightarrow>
   initialize e w =
     (Crashed,
      w\<lparr>trace := trace w @
         [Called ConnectionAcceptor Initialize (Returns True),
          Called MessageBroadcaster Initialize (Returns True)]\<rparr>)"
  by (simp add: initialize_defs)

lemma initialize_fail3:
  "succeeds e Initialize ConnectionAcceptor \<Longrightarrow>
   succeeds e Initialize MessageBroadcaster \<Longrightarrow> present e StatisticsCollector \<Longrightarrow>
   behaviour e StatisticsCollector Initialize \<noteq> Returns True \<Longrightarrow>
   initialize e w =
     (failed_initialize_result e StatisticsCollector,
      w\<lparr>trace := trace w @
         Called ConnectionAcceptor Initialize (Returns True) #
         Called MessageBroadcaster Initialize (Returns True) #
         failed_initialize_events e StatisticsCollector\<rparr>)"
  by (simp add: initialize_defs split: outcome.split thrown.split bool.split)

lemma set_up_callbacks_as_sequence:
  "set_up_callbacks e w = registrations e callback_order w"
  by (simp add: set_up_callbacks_def callback_order_def
      split: option.split prod.split outcome.split)

lemma registrations_eq:
  "registrations e cms w =
     (fst (registrations e cms w), w\<lparr>trace := trace w @ registration_events e cms\<rparr>)"
proof (induction cms arbitrary: w)
  case Nil
  show ?case by (simp add: log_line_def emit_def)
next
  case (Cons cm cms)
  obtain c m where cm: "cm = (c, m)" by (cases cm)
  have step: "registrations e cms w' =
     (fst (registrations e cms w'), w'\<lparr>trace := trace w' @ registration_events e cms\<rparr>)" for w'
    by (rule Cons.IH)
  show ?case
    by (simp add: cm arrow_def emit_def initialize_catch_def log_line_def
        split: outcome.split thrown.split) (subst step, simp)+
qed

lemma registrations_result:
  "(fst (registrations e cms w) = Returned True) =
     (\<forall>cm\<in>set cms. present e (fst cm) \<and> (\<exists>b. behaviour e (fst cm) (snd cm) = Returns b))"
proof (induction cms arbitrary: w)
  case Nil
  show ?case by simp
next
  case (Cons cm cms)
  obtain c m where cm: "cm = (c, m)" by (cases cm)
  show ?case
    by (simp add: cm arrow_def initialize_catch_def Cons.IH split: outcome.split thrown.split)
qed

lemma calls_registration_events_subset:
  "set (calls (registration_events e cms)) \<subseteq> set cms"
  by (induction cms) (auto split: outcome.splits thrown.splits if_splits)

lemma calls_registration_events_all:
  "\<forall>cm\<in>set cms. present e (fst cm) \<and> (\<exists>b. behaviour e (fst cm) (snd cm) = Returns b) \<Longrightarrow>
   calls (registration_events e cms) = cms"
  by (induction cms) auto

lemma initialize_all:
  "succeeds e Initialize ConnectionAcceptor \<Longrightarrow>
   succeeds e Initialize MessageBroadcaster \<Longrightarrow>
   succeeds e Initialize StatisticsCollector \<Longrightarrow>
   initialize e w =
     (fst (initialize e w),
      w\<lparr>trace := trace w @
         [Called ConnectionAcceptor Initialize (Returns True),
          Called MessageBroadcaster Initialize (Returns True),
          Called StatisticsCollector Initialize (Returns True)] @
         registration_events e callback_order\<rparr>)
   \<and> (fst (initialize e w) = Returned True) =
       (\<forall>cm\<in>set callback_order.
          present e (fst cm) \<and> (\<exists>b. behaviour e (fst cm) (snd cm) = Returns b))"
proof -
  assume a: "succeeds e Initialize ConnectionAcceptor"
    "succeeds e Initialize MessageBroadcaster" "succeeds e Initialize StatisticsCollector"
  define w3 where "w3 = w\<lparr>trace := trace w @
         [Called ConnectionAcceptor Initialize (Returns True),
          Called MessageBroadcaster Initialize (Returns True),
          Called StatisticsCollector Initialize (Returns True)]\<rparr>"
  have "initialize e w = registrations e callback_order w3"
    using a by (simp add: initialize_defs set_up_callbacks_as_sequence w3_def)
  then show ?thesis
    using registrations_eq [of e callback_order w3] registrations_result [of e callback_order w3]
    by (simp add: w3_def)
qed

lemma initialize_all_emitted:
  assumes "succeeds e Initialize ConnectionAcceptor"
    "succeeds e Initialize MessageBroadcaster" "succeeds e Initialize StatisticsCollector"
  shows "emitted w (snd (initialize e w)) =
         [Called ConnectionAcceptor Initialize (Returns True),
          Called MessageBroadcaster Initialize (Returns True),
          Called StatisticsCollector Initialize (Returns True)] @
         registration_events e callback_order"
proof -
  have "trace (snd (initialize e w)) = trace w @
         [Called ConnectionAcceptor Initialize (Returns True),
          Called MessageBroadcaster Initialize (Returns True),
          Called StatisticsCollector Initialize (Returns True)] @
         registration_events e callback_order"
    using initialize_all [OF assms, of w] by (cases "initialize e w") simp
  then show ?thesis
    by (rule emitted_append)
qed

lemma initialize_all_result:
  assumes "succeeds e Initialize ConnectionAcceptor"
    "succeeds e Initialize MessageBroadcaster" "succeeds e Initialize StatisticsCollector"
  shows "(fst (initialize e w) = Returned True) =
       (\<forall>cm\<in>set callback_order.
          present e (fst cm) \<and> (\<exists>b. behaviour e (fst cm) (snd cm) = Returns b))"
  using initialize_all [OF assms, of w] by simp

lemmas failed_initialize_simps = failed_initialize_result_def failed_initialize_events_def
  succeeds_def startup_order_def succeeded_before_def calls_append

lemma attempted_prefix: "attempted e m cs = take (length (attempted e m cs)) cs"
  by (induction cs) simp_all

lemma no_initialize_in_registrations:
  "filter (\<lambda>cm. snd cm = Initialize) (calls (registration_events e callback_order)) = []"
proof -
  have "\<forall>cm\<in>set callback_order. snd cm \<noteq> Initialize"
    by (simp add: callback_order_def)
  then show ?thesis
    using calls_registration_events_subset [of e callback_order]
    by (auto simp: filter_empty_conv)
qed

lemma no_registration_in_failed_initialize:
  "filter registers_callback (calls (failed_initialize_events e c)) = []"
  by (simp add: failed_initialize_events_def registers_callback_def
      split: outcome.split thrown.split)

lemma registrations_after_initialization:
  assumes "filter registers_callback (calls (emitted w (snd (initialize e w)))) \<noteq> []"
  shows "(\<forall>c\<in>set startup_order. succeeds e Initialize c)
   \<and> take 3 (emitted w (snd (initialize e w))) =
        [Called ConnectionAcceptor Initialize (Returns True),
         Called MessageBroadcaster Initialize (Returns True),
         Called StatisticsCollector Initialize (Returns True)]"
proof (cases rule: startup_cases [where e = e and m = Initialize])
  case null1
  then show ?thesis using assms by (simp add: initialize_null1 emitted_def)
next
  case fail1
  then show ?thesis using assms
    by (simp add: initialize_fail1 no_registration_in_failed_initialize)
next
  case null2
  then show ?thesis using assms by (simp add: initialize_null2 registers_callback_def)
next
  case fail2
  then show ?thesis using assms
    by (simp add: initialize_fail2 no_registration_in_failed_initialize registers_callback_def)
next
  case null3
  then show ?thesis using assms by (simp add: initialize_null3 registers_callback_def)
next
  case fail3
  then show ?thesis using assms
    by (simp add: initialize_fail3 no_registration_in_failed_initialize registers_callback_def)
next
  case all
  then show ?thesis
    by (simp add: initialize_all_emitted startup_order_def)
qed

lemma initialize_true:
  assumes "fst (initialize e w) = Returned True"
  shows "calls (emitted w (snd (initialize e w))) =
           map (\<lambda>c. (c, Initialize)) startup_order @ callback_order
     \<and> (\<forall>cm\<in>set callback_order. \<exists>b. behaviour e (fst cm) (snd cm) = Returns b)"
proof (cases rule: startup_cases [where e = e and m = Initialize])
  case null1
  then show ?thesis using assms by (simp add: initialize_null1)
next
  case fail1
  then show ?thesis using assms
    by (simp add: initialize_fail1 failed_initialize_result_def split: outcome.splits thrown.splits)
next
  case null2
  then show ?thesis using assms by (simp add: initialize_null2)
next
  case fail2
  then show ?thesis using assms
    by (simp add: initialize_fail2 failed_initialize_result_def split: outcome.splits thrown.splits)
next
  case null3
  then show ?thesis using assms by (simp add: initialize_null3)
next
  case fail3
  then show ?thesis using assms
    by (simp add: initialize_fail3 failed_initialize_result_def split: outcome.splits thrown.splits)
next
  case all
  have ok: "\<forall>cm\<in>set callback_order.
          present e (fst cm) \<and> (\<exists>b. behaviour e (fst cm) (snd cm) = Returns b)"
    using assms initialize_all_result [OF all, of w] by simp
  then have "calls (registration_events e callback_order) = callback_order"
    by (rule calls_registration_events_all)
  then show ?thesis
    using ok by (simp add: initialize_all_emitted [OF all] startup_order_def calls_append)
qed

lemma calls_registration_events:
  "calls (registration_events e cms) =
     until_throw e (takeWhile (\<lambda>cm. present e (fst cm)) cms)"
  by (induction cms) (auto split: outcome.splits thrown.splits)

lemma registrations_false_threw:
  "fst (registrations e cms w) = Returned False \<Longrightarrow>
   \<exists>cm\<in>set cms.
     Called (fst cm) (snd cm) (Throws StdException) \<in> set (registration_events e cms)"
proof (induction cms arbitrary: w)
  case Nil
  then show ?case by simp
next
  case (Cons cm cms)
  obtain c m where cm: "cm = (c, m)" by (cases cm)
  show ?case
  proof (cases "present e c")
    case False
    then show ?thesis using Cons.prems by (simp add: cm arrow_def)
  next
    case True
    show ?thesis
    proof (cases "behaviour e c m")
      case (Returns b)
      then have "fst (registrations e cms (emit (Called c m (Returns b)) w)) = Returned False"
        using Cons.prems True by (simp add: cm arrow_def)
      then have "\<exists>cm\<in>set cms.
          Called (fst cm) (snd cm) (Throws StdException) \<in> set (registration_events e cms)"
        by (rule Cons.IH)
      then show ?thesis using True Returns by (auto simp: cm)
    next
      case (Throws t)
      then show ?thesis using Cons.prems True
        by (cases t) (simp_all add: cm arrow_def initialize_catch_def)
    qed
  qed
qed

lemma initialize_returns_true:
  "(fst (initialize e w) = Returned True) =
     ((\<forall>c\<in>set startup_order. succeeds e Initialize c)
      \<and> (\<forall>cm\<in>set callback_order.
            present e (fst cm) \<and> (\<exists>b. behaviour e (fst cm) (snd cm) = Returns b)))"
proof (cases rule: startup_cases [where e = e and m = Initialize])
  case null1
  then show ?thesis by (simp add: initialize_null1 startup_order_def succeeds_def)
next
  case fail1
  then show ?thesis
    by (simp add: initialize_fail1 failed_initialize_result_def startup_order_def succeeds_def
        split: outcome.split thrown.split)
next
  case null2
  then show ?thesis by (simp add: initialize_null2 startup_order_def succeeds_def)
next
  case fail2
  then show ?thesis
    by (simp add: initialize_fail2 failed_initialize_result_def startup_order_def succeeds_def
        split: outcome.split thrown.split)
next
  case null3
  then show ?thesis by (simp add: initialize_null3 startup_order_def succeeds_def)
next
  case fail3
  then show ?thesis
    by (simp add: initialize_fail3 failed_initialize_result_def startup_order_def succeeds_def
        split: outcome.split thrown.split)
next
  case all
  then show ?thesis
    using initialize_all_result [OF all, of w] by (simp add: startup_order_def)
qed

lemma registrations_made:
  assumes "\<forall>c\<in>set startup_order. succeeds e Initialize c"
  shows "filter registers_callback (calls (emitted w (snd (initialize e w)))) =
           until_throw e (takeWhile (\<lambda>cm. present e (fst cm)) callback_order)"
proof -
  have s: "succeeds e Initialize ConnectionAcceptor" "succeeds e Initialize MessageBroadcaster"
    "succeeds e Initialize StatisticsCollector"
    using assms by (simp_all add: startup_order_def)
  have "\<forall>cm\<in>set (calls (registration_events e callback_order)). registers_callback cm"
    using calls_registration_events_subset [of e callback_order]
    by (auto simp: callback_order_def registers_callback_def)
  then have "filter registers_callback (calls (registration_events e callback_order)) =
      calls (registration_events e callback_order)"
    by (intro filter_True) 
  then show ?thesis
    by (simp add: initialize_all_emitted [OF s] calls_append registers_callback_def
        calls_registration_events del: registration_events.simps until_throw.simps)
qed

lemma failed_initialize_threw:
  assumes "fst (initialize e w) = Returned False"
    and "filter registers_callback (calls (emitted w (snd (initialize e w)))) \<noteq> []"
  shows "\<exists>cm\<in>set callback_order.
     Called (fst cm) (snd cm) (Throws StdException) \<in> set (emitted w (snd (initialize e w)))"
proof -
  have "\<forall>c\<in>set startup_order. succeeds e Initialize c"
    using registrations_after_initialization [OF assms(2)] by simp
  then have s: "succeeds e Initialize ConnectionAcceptor"
    "succeeds e Initialize MessageBroadcaster" "succeeds e Initialize StatisticsCollector"
    by (simp_all add: startup_order_def)
  define w3 where "w3 = w\<lparr>trace := trace w @
         [Called ConnectionAcceptor Initialize (Returns True),
          Called MessageBroadcaster Initialize (Returns True),
          Called StatisticsCollector Initialize (Returns True)]\<rparr>"
  have "initialize e w = registrations e callback_order w3"
    using s by (simp add: initialize_defs set_up_callbacks_as_sequence w3_def)
  then have "fst (registrations e callback_order w3) = Returned False"
    using assms(1) by simp
  then have "\<exists>cm\<in>set callback_order.
     Called (fst cm) (snd cm) (Throws StdException) \<in> set (registration_events e callback_order)"
    by (rule registrations_false_threw)
  then show ?thesis
    by (auto simp: initialize_all_emitted [OF s] simp del: registration_events.simps)
qed

subsection \<open>Evaluating in the concrete environments\<close>

lemmas stop_defs = stop_def guarded_call_eq log_line_def emit_def store_running_def
  store_shutdown_requested_def

lemmas initialize_run_defs = initialize_def set_up_callbacks_def initialize_catch_def
  arrow_def log_line_def emit_def

subsection \<open>The claims\<close>

text \<open>
  C1, as the code has it. When \<^verbatim>\<open>start\<close> is called with the running flag false
  and a start step fails by returning false or by throwing an exception derived from
  \<^verbatim>\<open>std::exception\<close>, \<^verbatim>\<open>start\<close> returns false and the running flag is false.
  The stop calls it makes are those of the rollback: on the components whose start had
  succeeded in this call, in reverse start order, up to and including the first stop
  call that throws. So every started component is stopped when no stop call throws, and
  none is after one has thrown.
\<close>

theorem start_failure_rolls_back:
  assumes "\<not> running w"
    and "first_failure e Start startup_order = Some (c, Returns False)
         \<or> first_failure e Start startup_order = Some (c, Throws StdException)"
  shows "fst (start e w) = Returned False
     \<and> \<not> running (snd (start e w))
     \<and> filter (\<lambda>cm. snd cm = Stop) (calls (emitted w (snd (start e w)))) =
         until_throw e (map (\<lambda>x. (x, Stop)) (rev (succeeded_before e Start startup_order)))
     \<and> ((\<forall>x\<in>set (succeeded_before e Start startup_order).
            \<exists>b. behaviour e x Stop = Returns b) \<longrightarrow>
         map fst (filter (\<lambda>cm. snd cm = Stop) (calls (emitted w (snd (start e w))))) =
           rev (succeeded_before e Start startup_order))"
proof -
  have rolled_back: "fst (start e w) = Returned False
     \<and> \<not> running (snd (start e w))
     \<and> filter (\<lambda>cm. snd cm = Stop) (calls (emitted w (snd (start e w)))) =
         until_throw e (map (\<lambda>x. (x, Stop)) (rev (succeeded_before e Start startup_order)))"
  proof (cases rule: startup_cases [where e = e and m = Start])
    case null1
    then show ?thesis using assms by (simp add: start_null1 failed_start_simps)
  next
    case fail1
    then show ?thesis using assms
      by (auto simp add: start_fail1 failed_start_simps
          simp del: rollback_events.simps until_throw.simps(2))
  next
    case null2
    then show ?thesis using assms by (simp add: start_null2 failed_start_simps)
  next
    case fail2
    then show ?thesis using assms
      by (auto simp add: start_fail2 failed_start_simps
          simp del: rollback_events.simps until_throw.simps(2))
  next
    case null3
    then show ?thesis using assms by (simp add: start_null3 failed_start_simps)
  next
    case fail3
    then show ?thesis using assms
      by (auto simp add: start_fail3 failed_start_simps
          simp del: rollback_events.simps until_throw.simps(2))
  next
    case all
    then show ?thesis using assms by (simp add: start_all failed_start_simps)
  qed
  have "until_throw e (map (\<lambda>x. (x, Stop)) (rev (succeeded_before e Start startup_order))) =
          map (\<lambda>x. (x, Stop)) (rev (succeeded_before e Start startup_order))"
    if "\<forall>x\<in>set (succeeded_before e Start startup_order). \<exists>b. behaviour e x Stop = Returns b"
    using that by (intro until_throw_returns) auto
  then show ?thesis
    using rolled_back by (simp add: comp_def)
qed

text \<open>The theorem at work: the statistics collector does not start, every stop call
  returns, and the message broadcaster and the connection acceptor are stopped, in
  this order.\<close>

theorem start_failure_rolls_back_witness:
  "\<not> running fresh
   \<and> first_failure collector_start_fails Start startup_order =
       Some (StatisticsCollector, Returns False)
   \<and> fst (start collector_start_fails fresh) = Returned False
   \<and> \<not> running (snd (start collector_start_fails fresh))
   \<and> map fst (filter (\<lambda>cm. snd cm = Stop)
        (calls (emitted fresh (snd (start collector_start_fails fresh))))) =
       [MessageBroadcaster, ConnectionAcceptor]"
proof -
  have h1: "\<not> running fresh"
    by (simp add: fresh_def)
  have h2: "first_failure collector_start_fails Start startup_order =
       Some (StatisticsCollector, Returns False)"
    by (simp add: fresh_def healthy_def with_outcome_def collector_start_fails_def startup_order_def)
  show ?thesis
    using h1 h2 start_failure_rolls_back [OF h1 disjI1 [OF h2]]
    by (simp add: fresh_def healthy_def with_outcome_def collector_start_fails_def startup_order_def succeeded_before_def succeeds_def)
qed

text \<open>
  C1 as the specification states it fails in two places. In the first environment the
  connection acceptor and the message broadcaster start, the statistics collector does
  not, and the stop of the message broadcaster throws inside the rollback: the
  connection acceptor, which had started, is never stopped. In the second the start of
  the connection acceptor throws something that is not a \<^verbatim>\<open>std::exception\<close>: the
  handler of \<^verbatim>\<open>start\<close> does not catch it, and \<^verbatim>\<open>start\<close> does not return false.
\<close>

theorem start_failure_rollback_cut_short:
  "first_failure broadcaster_stop_throws Start startup_order =
     Some (StatisticsCollector, Returns False)
   \<and> rev (succeeded_before broadcaster_stop_throws Start startup_order) =
       [MessageBroadcaster, ConnectionAcceptor]
   \<and> map fst (filter (\<lambda>cm. snd cm = Stop)
        (calls (emitted fresh (snd (start broadcaster_stop_throws fresh))))) =
       [MessageBroadcaster]
   \<and> behaviour acceptor_start_throws_other ConnectionAcceptor Start = Throws OtherException
   \<and> fst (start acceptor_start_throws_other fresh) = Escaped OtherException"
  by (simp add: start_defs fresh_def healthy_def with_outcome_def collector_start_fails_def
      broadcaster_stop_throws_def acceptor_start_throws_other_def startup_order_def succeeded_before_def)

text \<open>
  C2. When \<^verbatim>\<open>start\<close> is called with the running flag false, it stores true to the
  running flag, once, if all three component starts succeed, and stores nothing to it
  otherwise; the flag is true afterwards exactly when all three starts succeed, which is
  also exactly when \<^verbatim>\<open>start\<close> returns true. On every other path the flag is still
  false.
\<close>

theorem start_sets_running_iff_all_started:
  assumes "\<not> running w"
  shows "running_stores (emitted w (snd (start e w))) =
           (if \<forall>c\<in>set startup_order. succeeds e Start c then [True] else [])
     \<and> running (snd (start e w)) = (\<forall>c\<in>set startup_order. succeeds e Start c)
     \<and> (fst (start e w) = Returned True) = (\<forall>c\<in>set startup_order. succeeds e Start c)"
proof (cases rule: startup_cases [where e = e and m = Start])
  case null1
  then show ?thesis using assms by (simp add: start_null1 failed_start_simps)
next
  case fail1
  then show ?thesis using assms
    by (simp add: start_fail1 failed_start_simps split: outcome.split thrown.split bool.split)
next
  case null2
  then show ?thesis using assms by (simp add: start_null2 failed_start_simps)
next
  case fail2
  then show ?thesis using assms
    by (simp add: start_fail2 failed_start_simps split: outcome.split thrown.split bool.split)
next
  case null3
  then show ?thesis using assms by (simp add: start_null3 failed_start_simps)
next
  case fail3
  then show ?thesis using assms
    by (simp add: start_fail3 failed_start_simps split: outcome.split thrown.split bool.split)
next
  case all
  then show ?thesis using assms by (simp add: start_all failed_start_simps)
qed

text \<open>The theorem at work, once where all three components start and once where the
  statistics collector does not.\<close>

theorem start_sets_running_iff_all_started_witness:
  "\<not> running fresh
   \<and> running_stores (emitted fresh (snd (start healthy fresh))) = [True]
   \<and> running (snd (start healthy fresh))
   \<and> fst (start healthy fresh) = Returned True
   \<and> running_stores (emitted fresh (snd (start collector_start_fails fresh))) = []
   \<and> \<not> running (snd (start collector_start_fails fresh))
   \<and> fst (start collector_start_fails fresh) \<noteq> Returned True"
proof -
  have h: "\<not> running fresh"
    by (simp add: fresh_def)
  show ?thesis
    using h start_sets_running_iff_all_started [OF h, of healthy]
      start_sets_running_iff_all_started [OF h, of collector_start_fails]
    by (simp add: fresh_def healthy_def with_outcome_def collector_start_fails_def startup_order_def succeeds_def)
qed

text \<open>
  C5. A call of \<^verbatim>\<open>start\<close> while the running flag is already true returns true; it
  calls no member function of any component and stores to no flag: all it does is log
  the warning that the server is already running.
\<close>

theorem start_already_running:
  "running w \<Longrightarrow>
   start e w = (Returned True, w\<lparr>trace := trace w @ [Logged ServerAlreadyRunning]\<rparr>)"
  by (simp add: start_def log_line_def emit_def)

text \<open>The theorem at work: a second \<^verbatim>\<open>start\<close> after one that succeeded.\<close>

theorem start_already_running_witness:
  "running (after_start healthy)
   \<and> fst (start healthy (after_start healthy)) = Returned True
   \<and> emitted (after_start healthy) (snd (start healthy (after_start healthy))) =
       [Logged ServerAlreadyRunning]
   \<and> running (snd (start healthy (after_start healthy)))"
proof -
  have h: "running (after_start healthy)"
    by (simp add: start_defs fresh_def healthy_def after_start_def)
  show ?thesis
    using h start_already_running [OF h, of healthy] by simp
qed

text \<open>
  C4. \<^verbatim>\<open>rollbackStartedComponents\<close> returns for every combination of the three
  flags, in every environment and every world: no exception leaves it and the process is
  not lost. It leaves both flags as they are. It logs the line that the rollback failed
  exactly when one of its stop calls has thrown. And when that line is logged inside a
  call of \<^verbatim>\<open>start\<close> that began with the running flag false, \<^verbatim>\<open>start\<close> still
  returns false and the running flag is still false.
\<close>

theorem rollback_never_escapes:
  "fst (rollbackStartedComponents e ca mb sc w) = Returned ()
   \<and> running (snd (rollbackStartedComponents e ca mb sc w)) = running w
   \<and> shutdown_requested (snd (rollbackStartedComponents e ca mb sc w)) =
       shutdown_requested w
   \<and> (Logged RollbackFailed
         \<in> set (emitted w (snd (rollbackStartedComponents e ca mb sc w)))) =
       (\<exists>c t. Called c Stop (Throws t)
                \<in> set (emitted w (snd (rollbackStartedComponents e ca mb sc w))))
   \<and> (\<not> running w' \<and> Logged RollbackFailed \<in> set (emitted w' (snd (start e w')))
        \<longrightarrow> fst (start e w') = Returned False \<and> \<not> running (snd (start e w')))"
  using failed_rollback_start_returns [of w' e]
  by (simp add: rollback_eq rollback_failed_in_rollback_events)

text \<open>The theorem at work: the stop of the message broadcaster throws in the
  rollback.\<close>

theorem rollback_never_escapes_witness:
  "fst (rollbackStartedComponents broadcaster_stop_throws True True False fresh) =
     Returned ()
   \<and> emitted fresh
        (snd (rollbackStartedComponents broadcaster_stop_throws True True False fresh)) =
       [Called MessageBroadcaster Stop (Throws StdException), Logged RollbackFailed]
   \<and> \<not> running fresh
   \<and> Logged RollbackFailed \<in> set (emitted fresh (snd (start broadcaster_stop_throws fresh)))
   \<and> fst (start broadcaster_stop_throws fresh) = Returned False
   \<and> \<not> running (snd (start broadcaster_stop_throws fresh))"
  using rollback_never_escapes
    [of broadcaster_stop_throws True True False fresh fresh]
  by (simp add: start_defs fresh_def healthy_def with_outcome_def collector_start_fails_def
      broadcaster_stop_throws_def)

text \<open>
  C9, as the code has it. The rollback logs "Rolled back X" only for a component X whose
  flag it was given as true and whose pointer is not null, and only when the stop of X
  returns; every such line stands right after the event of that stop call having
  returned, and what the rollback emits is \<open>rollback_events\<close> of the components it has to
  stop. In what a call of \<^verbatim>\<open>start\<close> emits such a line stands only for a component
  that is there, whose start has returned true in that call and whose stop returns, and
  again every such line stands right after the stop call of its component.
\<close>

theorem rollback_logs_only_started:
  "(Logged (RolledBack c) \<in> set (emitted w (snd (rollbackStartedComponents e ca mb sc w)))
      \<longrightarrow> ((c = StatisticsCollector \<and> sc) \<or> (c = MessageBroadcaster \<and> mb)
            \<or> (c = ConnectionAcceptor \<and> ca))
          \<and> present e c \<and> (\<exists>b. behaviour e c Stop = Returns b))
   \<and> rolled_back_after_stop (emitted w (snd (rollbackStartedComponents e ca mb sc w)))
   \<and> emitted w (snd (rollbackStartedComponents e ca mb sc w)) =
       rollback_events e (to_roll_back e ca mb sc)
   \<and> (Logged (RolledBack c) \<in> set (emitted w' (snd (start e w')))
      \<longrightarrow> Called c Start (Returns True) \<in> set (emitted w' (snd (start e w')))
          \<and> present e c \<and> (\<exists>b. behaviour e c Stop = Returns b))
   \<and> rolled_back_after_stop (emitted w' (snd (start e w')))"
  using rolled_back_was_started [of c w' e] rolled_back_was_flagged [of c w e ca mb sc]
    rolled_back_was_present [of c w' e] rolled_back_was_flagged_present [of c w e ca mb sc]
    start_rolled_back_after_stop [of w' e]
  by (simp add: rollback_eq rolled_back_after_stop_rollback_events)

text \<open>The theorem at work: the statistics collector does not start; the rollback of the
  connection acceptor is logged right after its stop, its start had returned true, and
  no rollback of the statistics collector is logged. And a rollback that is given the
  flag of a message broadcaster that is not there logs nothing for it.\<close>

theorem rollback_logs_only_started_witness:
  "emitted fresh (snd (start collector_start_fails fresh)) =
     [Called ConnectionAcceptor Start (Returns True),
      Called MessageBroadcaster Start (Returns True),
      Called StatisticsCollector Start (Returns False),
      Logged (StartFailed StatisticsCollector),
      Called MessageBroadcaster Stop (Returns True),
      Logged (RolledBack MessageBroadcaster),
      Called ConnectionAcceptor Stop (Returns True),
      Logged (RolledBack ConnectionAcceptor),
      Logged RollbackCompleted]
   \<and> Logged (RolledBack ConnectionAcceptor)
       \<in> set (emitted fresh (snd (start collector_start_fails fresh)))
   \<and> Called ConnectionAcceptor Start (Returns True)
       \<in> set (emitted fresh (snd (start collector_start_fails fresh)))
   \<and> present collector_start_fails ConnectionAcceptor
   \<and> behaviour collector_start_fails ConnectionAcceptor Stop = Returns True
   \<and> rolled_back_after_stop (emitted fresh (snd (start collector_start_fails fresh)))
   \<and> Logged (RolledBack StatisticsCollector)
       \<notin> set (emitted fresh (snd (start collector_start_fails fresh)))
   \<and> emitted fresh
        (snd (rollbackStartedComponents (without MessageBroadcaster healthy)
               True True False fresh)) =
       [Called ConnectionAcceptor Stop (Returns True),
        Logged (RolledBack ConnectionAcceptor),
        Logged RollbackCompleted]"
  using rollback_logs_only_started
    [where c = ConnectionAcceptor and w' = fresh and e = collector_start_fails]
    rollback_logs_only_started
    [where c = MessageBroadcaster and w = fresh and e = "without MessageBroadcaster healthy"
       and ca = True and mb = True and sc = False]
  by (simp add: start_defs fresh_def healthy_def with_outcome_def without_def
      collector_start_fails_def)

text \<open>
  C9 as the specification states it does not hold: there is no environment, no world and
  no component for which a call of \<^verbatim>\<open>start\<close> logs "Rolled back X" without the start
  of X having returned true in that call.
\<close>

theorem no_rollback_log_without_start:
  "\<not> (\<exists>e w c. Logged (RolledBack c) \<in> set (emitted w (snd (start e w)))
         \<and> Called c Start (Returns True) \<notin> set (emitted w (snd (start e w))))"
  using rolled_back_was_started by blast




text \<open>
  C6. From any world, whatever the flags, a second call of \<^verbatim>\<open>stop\<close> right after a
  first returns and leaves the world exactly as the first call left it: it makes no
  call into a component, stores to no flag and logs nothing. This holds in whatever
  way the first call ended, and in whatever environment the second call runs.
\<close>

theorem stop_twice:
  "stop e' (snd (stop e w)) = (Returned (), snd (stop e w))
   \<and> emitted (snd (stop e w)) (snd (stop e' (snd (stop e w)))) = []
   \<and> \<not> running (snd (stop e w))"
  using stop_clears_running [of e w] by (simp add: stop_def emitted_def)

text \<open>The theorem at work: the first \<^verbatim>\<open>stop\<close> after a successful \<^verbatim>\<open>start\<close>
  makes the four calls, the second changes nothing.\<close>

theorem stop_twice_witness:
  "running (after_start healthy)
   \<and> calls (emitted (after_start healthy) (snd (stop healthy (after_start healthy)))) = stop_order
   \<and> stop healthy (snd (stop healthy (after_start healthy))) =
        (Returned (), snd (stop healthy (after_start healthy)))"
  using stop_twice [of healthy healthy "after_start healthy"]
  by (simp add: start_defs stop_defs fresh_def healthy_def after_start_def stop_order_def emitted_def)

text \<open>
  C7. \<^verbatim>\<open>initialize\<close> calls the initialize member functions one after the other in
  the order connection acceptor, message broadcaster, statistics collector, and goes no
  further than the first that does not return true: the components it initializes are
  a front part of that order. When the first initialization that does not return true
  returns false, \<^verbatim>\<open>initialize\<close> returns false; the only calls it has made are the
  initializations up to and including that one (no later initialization, no stop, no
  callback registration), and the last thing it did was log the failure.
\<close>

theorem initialize_in_order:
  "map fst (filter (\<lambda>cm. snd cm = Initialize) (calls (emitted w (snd (initialize e w))))) =
     attempted e Initialize startup_order
   \<and> attempted e Initialize startup_order =
       take (length (attempted e Initialize startup_order)) startup_order
   \<and> (first_failure e Initialize startup_order = Some (c, Returns False) \<longrightarrow>
        fst (initialize e w) = Returned False
        \<and> calls (emitted w (snd (initialize e w))) =
            map (\<lambda>x. (x, Initialize)) (succeeded_before e Initialize startup_order @ [c])
        \<and> last (trace (snd (initialize e w))) = Logged (InitializationFailed c))"
proof -
  have "map fst (filter (\<lambda>cm. snd cm = Initialize) (calls (emitted w (snd (initialize e w))))) =
     attempted e Initialize startup_order
   \<and> (first_failure e Initialize startup_order = Some (c, Returns False) \<longrightarrow>
        fst (initialize e w) = Returned False
        \<and> calls (emitted w (snd (initialize e w))) =
            map (\<lambda>x. (x, Initialize)) (succeeded_before e Initialize startup_order @ [c])
        \<and> last (trace (snd (initialize e w))) = Logged (InitializationFailed c))"
  proof (cases rule: startup_cases [where e = e and m = Initialize])
    case null1
    then show ?thesis by (simp add: initialize_null1 failed_initialize_simps emitted_def)
  next
    case fail1
    then show ?thesis
      by (simp add: initialize_fail1 failed_initialize_simps split: outcome.split thrown.split)
  next
    case null2
    then show ?thesis by (simp add: initialize_null2 failed_initialize_simps)
  next
    case fail2
    then show ?thesis
      by (simp add: initialize_fail2 failed_initialize_simps split: outcome.split thrown.split)
  next
    case null3
    then show ?thesis by (simp add: initialize_null3 failed_initialize_simps)
  next
    case fail3
    then show ?thesis
      by (simp add: initialize_fail3 failed_initialize_simps split: outcome.split thrown.split)
  next
    case all
    have "emitted w (snd (initialize e w)) =
         [Called ConnectionAcceptor Initialize (Returns True),
          Called MessageBroadcaster Initialize (Returns True),
          Called StatisticsCollector Initialize (Returns True)] @
         registration_events e callback_order"
      using all by (rule initialize_all_emitted)
    then show ?thesis
      using all
      by (simp add: failed_initialize_simps no_initialize_in_registrations
          del: registration_events.simps)
  qed
  then show ?thesis
    using attempted_prefix [of e Initialize startup_order] by simp
qed

text \<open>The theorem at work: the message broadcaster does not initialize; and all
  three initialize.\<close>

theorem initialize_in_order_witness:
  "first_failure broadcaster_initialize_fails Initialize startup_order =
     Some (MessageBroadcaster, Returns False)
   \<and> fst (initialize broadcaster_initialize_fails fresh) = Returned False
   \<and> emitted fresh (snd (initialize broadcaster_initialize_fails fresh)) =
       [Called ConnectionAcceptor Initialize (Returns True),
        Called MessageBroadcaster Initialize (Returns False),
        Logged (InitializationFailed MessageBroadcaster)]
   \<and> map fst (filter (\<lambda>cm. snd cm = Initialize)
        (calls (emitted fresh (snd (initialize healthy fresh))))) =
       [ConnectionAcceptor, MessageBroadcaster, StatisticsCollector]"
  using initialize_in_order [of fresh broadcaster_initialize_fails MessageBroadcaster]
    initialize_in_order [of fresh healthy MessageBroadcaster]
  by (simp add: initialize_run_defs fresh_def healthy_def with_outcome_def broadcaster_initialize_fails_def emitted_def startup_order_def)

text \<open>
  C10, as the code has it. \<^verbatim>\<open>initialize\<close> makes a callback registration only after
  the three component initializations have returned true: when any registration call
  is made, the first three events are these three returns. When a component
  initialization does not succeed, no registration call is made. When
  \<^verbatim>\<open>initialize\<close> returns true, the four registrations have been made after the three
  initializations, in their order, and each has returned; and \<^verbatim>\<open>initialize\<close>
  returns true exactly when the three initializations succeed and the four registration
  calls are made on components that are there and return. When the three
  initializations succeed, the registrations made are those of the fixed order up to
  and including the first that throws (or up to a null pointer). A call of
  \<^verbatim>\<open>initialize\<close> that returns false has made a registration only when a
  registration call has thrown an exception derived from \<^verbatim>\<open>std::exception\<close>.
\<close>

theorem callbacks_after_initialization:
  "(filter registers_callback (calls (emitted w (snd (initialize e w)))) \<noteq> [] \<longrightarrow>
      take 3 (emitted w (snd (initialize e w))) =
        [Called ConnectionAcceptor Initialize (Returns True),
         Called MessageBroadcaster Initialize (Returns True),
         Called StatisticsCollector Initialize (Returns True)])
   \<and> (\<not> (\<forall>c\<in>set startup_order. succeeds e Initialize c) \<longrightarrow>
        filter registers_callback (calls (emitted w (snd (initialize e w)))) = [])
   \<and> (fst (initialize e w) = Returned True \<longrightarrow>
        calls (emitted w (snd (initialize e w))) =
          map (\<lambda>c. (c, Initialize)) startup_order @ callback_order
        \<and> (\<forall>cm\<in>set callback_order. \<exists>b. behaviour e (fst cm) (snd cm) = Returns b))
   \<and> (fst (initialize e w) = Returned True) =
       ((\<forall>c\<in>set startup_order. succeeds e Initialize c)
        \<and> (\<forall>cm\<in>set callback_order.
              present e (fst cm) \<and> (\<exists>b. behaviour e (fst cm) (snd cm) = Returns b)))
   \<and> ((\<forall>c\<in>set startup_order. succeeds e Initialize c) \<longrightarrow>
        filter registers_callback (calls (emitted w (snd (initialize e w)))) =
          until_throw e (takeWhile (\<lambda>cm. present e (fst cm)) callback_order))
   \<and> (fst (initialize e w) = Returned False
        \<and> filter registers_callback (calls (emitted w (snd (initialize e w)))) \<noteq> [] \<longrightarrow>
        (\<exists>cm\<in>set callback_order.
           Called (fst cm) (snd cm) (Throws StdException)
             \<in> set (emitted w (snd (initialize e w)))))"
  using registrations_after_initialization [of w e] initialize_true [of e w]
    initialize_returns_true [of e w] registrations_made [of e w]
    failed_initialize_threw [of e w]
  by blast

text \<open>The theorem at work: in the healthy environment the four registrations follow the
  three initializations; where the message broadcaster does not initialize, none is
  made; where the registration of the error callback throws, \<^verbatim>\<open>initialize\<close>
  returns false after two registration calls, the second of which has thrown.\<close>

theorem callbacks_after_initialization_witness:
  "fst (initialize healthy fresh) = Returned True
   \<and> calls (emitted fresh (snd (initialize healthy fresh))) =
       [(ConnectionAcceptor, Initialize), (MessageBroadcaster, Initialize),
        (StatisticsCollector, Initialize),
        (ConnectionAcceptor, SetAcceptCallback), (ConnectionAcceptor, SetErrorCallback),
        (SessionManager, SetSessionCallback), (MessageBroadcaster, SetBroadcastCallback)]
   \<and> \<not> succeeds broadcaster_initialize_fails Initialize MessageBroadcaster
   \<and> fst (initialize broadcaster_initialize_fails fresh) = Returned False
   \<and> filter registers_callback
        (calls (emitted fresh (snd (initialize broadcaster_initialize_fails fresh)))) = []
   \<and> fst (initialize error_callback_throws fresh) = Returned False
   \<and> filter registers_callback
        (calls (emitted fresh (snd (initialize error_callback_throws fresh)))) =
       [(ConnectionAcceptor, SetAcceptCallback), (ConnectionAcceptor, SetErrorCallback)]
   \<and> Called ConnectionAcceptor SetErrorCallback (Throws StdException)
       \<in> set (emitted fresh (snd (initialize error_callback_throws fresh)))"
  using callbacks_after_initialization [of fresh healthy]
    callbacks_after_initialization [of fresh broadcaster_initialize_fails]
    callbacks_after_initialization [of fresh error_callback_throws]
  by (simp add: initialize_run_defs fresh_def healthy_def with_outcome_def
      broadcaster_initialize_fails_def error_callback_throws_def emitted_def
      registers_callback_def succeeds_def callback_order_def startup_order_def)

text \<open>
  C10 as the specification states it fails where a registration call itself throws:
  the accept callback has been handed to the connection acceptor when the registration
  of the error callback throws, the handler of \<^verbatim>\<open>initialize\<close> catches the exception,
  and \<^verbatim>\<open>initialize\<close> returns false with that callback registered.
\<close>

theorem failed_initialize_with_callback_registered:
  "emitted fresh (snd (initialize error_callback_throws fresh)) =
     [Called ConnectionAcceptor Initialize (Returns True),
      Called MessageBroadcaster Initialize (Returns True),
      Called StatisticsCollector Initialize (Returns True),
      Called ConnectionAcceptor SetAcceptCallback (Returns True),
      Called ConnectionAcceptor SetErrorCallback (Throws StdException),
      Logged InitFailedException]
   \<and> fst (initialize error_callback_throws fresh) = Returned False"
  by (simp add: initialize_run_defs fresh_def healthy_def with_outcome_def error_callback_throws_def emitted_def)

text \<open>
  C8. \<^verbatim>\<open>main\<close> returns 0 exactly when the controller's \<^verbatim>\<open>initialize()\<close> and
  \<^verbatim>\<open>start()\<close> return true and \<^verbatim>\<open>run()\<close> returns; it returns 1 exactly when
  \<^verbatim>\<open>initialize()\<close> returns false, or \<^verbatim>\<open>initialize()\<close> returns true and
  \<^verbatim>\<open>start()\<close> returns false. After a false \<^verbatim>\<open>initialize()\<close> it does not call
  \<^verbatim>\<open>start()\<close>, and after a false \<^verbatim>\<open>start()\<close> it does not call \<^verbatim>\<open>run()\<close>.
\<close>

theorem main_exit_code:
  "(fst (main c) = ExitCode 0) =
     (controller_initialize c = Returns True \<and> controller_start c = Returns True
      \<and> controller_run c = RunReturns)
   \<and> (fst (main c) = ExitCode 1) =
       (controller_initialize c = Returns False
        \<or> controller_initialize c = Returns True \<and> controller_start c = Returns False)
   \<and> (controller_initialize c = Returns False \<longrightarrow> snd (main c) = [CallInitialize])
   \<and> (controller_initialize c = Returns True \<and> controller_start c = Returns False \<longrightarrow>
        snd (main c) = [CallInitialize, CallStart])"
  by (simp add: main_def split: outcome.split bool.split run_outcome.split)

text \<open>The theorem at work: a clean run, a failed initialization, a failed start.\<close>

theorem main_exit_code_witness:
  "main \<lparr>controller_initialize = Returns True, controller_start = Returns True,
          controller_run = RunReturns\<rparr> =
     (ExitCode 0, [CallInitialize, CallStart, CallRun])
   \<and> main \<lparr>controller_initialize = Returns False, controller_start = Returns True,
          controller_run = RunReturns\<rparr> =
     (ExitCode 1, [CallInitialize])
   \<and> main \<lparr>controller_initialize = Returns True, controller_start = Returns False,
          controller_run = RunReturns\<rparr> =
     (ExitCode 1, [CallInitialize, CallStart])"
  using main_exit_code [of "\<lparr>controller_initialize = Returns True, controller_start = Returns True,
          controller_run = RunReturns\<rparr>"]
    main_exit_code [of "\<lparr>controller_initialize = Returns False, controller_start = Returns True,
          controller_run = RunReturns\<rparr>"]
    main_exit_code [of "\<lparr>controller_initialize = Returns True, controller_start = Returns False,
          controller_run = RunReturns\<rparr>"]
  by (simp add: main_def)

end
